theory Spec2Isabelle
  imports Main "HOL-Library.AList"
begin

section \<open>Recorded-interaction fixtures: sanitizer and schema converter\<close>

text \<open>
  A shallow embedding of \<^verbatim>\<open>scripts/sanitize_vcr_cassettes.py\<close> and
  \<^verbatim>\<open>scripts/convert_vcr_cassettes.py\<close>. Python values produced by
  \<^verbatim>\<open>json.load\<close> are a tree of dicts, lists and scalars; module-level
  dictionaries are threaded through the functions as an explicit state; every
  exception the scripts can raise is a value of type \<open>error\<close>.
\<close>

subsection \<open>Python values read from JSON\<close>

text \<open>
  A float is never computed with: the scripts only test its truth value, so it is
  carried as sign, mantissa and binary exponent, or as one of the non-finite
  constants the JSON reader of Python accepts.
\<close>

datatype pyfloat = Finite bool nat int | Infinite bool | NaN

text \<open>
  A dict is an association list in insertion order; the JSON reader never produces
  two entries with one key (\<open>wf_json\<close> below).
\<close>

datatype json =
    JNull
  | JBool bool
  | JInt int
  | JFloat pyfloat
  | JStr string
  | JList "json list"
  | JDict "(string \<times> json) list"

fun wf_json :: "json \<Rightarrow> bool" where
  "wf_json (JDict kvs) = (distinct (map fst kvs) \<and> (\<forall>kv \<in> set kvs. wf_json (snd kv)))"
| "wf_json (JList xs) = (\<forall>x \<in> set xs. wf_json x)"
| "wf_json _ = True"

text \<open>
  \<^verbatim>\<open>isinstance(value, int)\<close> holds for Python integers and, because
  \<^verbatim>\<open>bool\<close> is a subclass of \<^verbatim>\<open>int\<close>, for booleans; such a value
  compares and hashes by its number (\<^verbatim>\<open>True == 1\<close>) and prints by its type.
\<close>

datatype pyint = PInt int | PBool bool

fun int_of :: "pyint \<Rightarrow> int" where
  "int_of (PInt i) = i"
| "int_of (PBool b) = (if b then 1 else 0)"

fun isinstance_int :: "json \<Rightarrow> pyint option" where
  "isinstance_int (JInt i) = Some (PInt i)"
| "isinstance_int (JBool b) = Some (PBool b)"
| "isinstance_int _ = None"

text \<open>\<^verbatim>\<open>isinstance(value, int) and value > 0\<close>\<close>

definition positive_int :: "json \<Rightarrow> pyint option" where
  "positive_int value =
     (case isinstance_int value of
        Some n \<Rightarrow> if int_of n > 0 then Some n else None
      | None \<Rightarrow> None)"

subsection \<open>Module state of the sanitizer\<close>

text \<open>
  \<^verbatim>\<open>ORG_ID_MAP\<close> and \<^verbatim>\<open>USER_ID_MAP\<close> are dicts keyed by numbers, in
  insertion order (the order matters where the keys are iterated). Keys are
  compared by number; an assignment to a key already present keeps the key object
  and replaces the value.
\<close>

type_synonym idmap = "(pyint \<times> int) list"

fun id_get :: "idmap \<Rightarrow> pyint \<Rightarrow> int option" where
  "id_get [] k = None"
| "id_get ((k', v) # m) k = (if int_of k' = int_of k then Some v else id_get m k)"

fun id_set :: "idmap \<Rightarrow> pyint \<Rightarrow> int \<Rightarrow> idmap" where
  "id_set [] k v = [(k, v)]"
| "id_set ((k', v') # m) k v =
     (if int_of k' = int_of k then (k', v) # m else (k', v') # id_set m k v)"

record idmaps =
  ORG_ID_MAP :: idmap
  USER_ID_MAP :: idmap

definition TEST_ORG_ID :: int where "TEST_ORG_ID = 12345"
definition TEST_USER_ID :: int where "TEST_USER_ID = 99999"
definition ORG_ID_FIELDS :: "string list" where "ORG_ID_FIELDS = [''org_id'', ''org'']"
definition USER_ID_FIELDS :: "string list" where
  "USER_ID_FIELDS = [''owner_id'', ''published_by_id'', ''user_id'', ''assignee_id'',
                     ''language_okay_updated_by_id'', ''infosec_program_id'']"
definition EMAIL_FIELDS :: "string list" where "EMAIL_FIELDS = [''email'']"
definition NAME_FIELDS :: "string list" where
  "NAME_FIELDS = [''first_name'', ''last_name'', ''display_name'', ''short_display_name'',
                  ''audit_team_name'']"
definition TEST_NAMES :: "(string \<times> string) list" where
  "TEST_NAMES = [(''first_name'', ''Test''), (''last_name'', ''User''),
                 (''display_name'', ''Test User''), (''short_display_name'', ''TU''),
                 (''audit_team_name'', ''Test Audit Team'')]"

subsection \<open>Structural rewrite: \<^verbatim>\<open>sanitize_value\<close>, \<^verbatim>\<open>sanitize_dict\<close>, \<^verbatim>\<open>sanitize_list\<close>\<close>

text \<open>\<^verbatim>\<open>key in FIELDS and isinstance(value, int) and value > 0\<close>\<close>

definition id_field :: "string list \<Rightarrow> string \<Rightarrow> json \<Rightarrow> pyint option" where
  "id_field names key value = (if key \<in> set names then positive_int value else None)"

text \<open>The last two tests of \<^verbatim>\<open>sanitize_value\<close>: e-mail and personal-name fields.\<close>

definition sanitize_text :: "string \<Rightarrow> json \<Rightarrow> json" where
  "sanitize_text key value =
     (case value of
        JStr s \<Rightarrow>
          if key \<in> set EMAIL_FIELDS \<and> CHR ''@'' \<in> set s then JStr ''test@example.com''
          else if key \<in> set NAME_FIELDS \<and> s \<noteq> [] then
            JStr (case map_of TEST_NAMES key of Some n \<Rightarrow> n | None \<Rightarrow> ''Test Value'')
          else value
      | _ \<Rightarrow> value)"

text \<open>
  \<^verbatim>\<open>sanitize_value(obj, key, value)\<close>; the parameter \<^verbatim>\<open>obj\<close> is never read.
  A value missing from the map is registered with the test constant and that
  constant is returned; a value present returns what the map holds.
\<close>

definition sanitize_value :: "idmaps \<Rightarrow> string \<Rightarrow> json \<Rightarrow> json \<times> idmaps" where
  "sanitize_value st key value =
     (if value = JNull then (value, st)
      else case id_field ORG_ID_FIELDS key value of
        Some n \<Rightarrow>
          (case id_get (ORG_ID_MAP st) n of
             None \<Rightarrow> (JInt TEST_ORG_ID,
                       st\<lparr>ORG_ID_MAP := id_set (ORG_ID_MAP st) n TEST_ORG_ID\<rparr>)
           | Some s \<Rightarrow> (JInt s, st))
      | None \<Rightarrow>
          (case id_field USER_ID_FIELDS key value of
             Some n \<Rightarrow>
               (case id_get (USER_ID_MAP st) n of
                  None \<Rightarrow> (JInt TEST_USER_ID,
                            st\<lparr>USER_ID_MAP := id_set (USER_ID_MAP st) n TEST_USER_ID\<rparr>)
                | Some s \<Rightarrow> (JInt s, st))
           | None \<Rightarrow> (sanitize_text key value, st)))"

text \<open>
  The two \<^verbatim>\<open>for\<close> loops carry the dict or list under construction;
  \<^verbatim>\<open>result[key] = v\<close> is \<open>AList.update\<close>, \<^verbatim>\<open>result.append(v)\<close> adds at the end.
\<close>

fun sanitize_dict :: "idmaps \<Rightarrow> json \<Rightarrow> json \<times> idmaps"
and sanitize_dict_loop ::
  "idmaps \<Rightarrow> (string \<times> json) list \<Rightarrow> (string \<times> json) list \<Rightarrow> json \<times> idmaps"
and sanitize_list :: "idmaps \<Rightarrow> json list \<Rightarrow> json \<times> idmaps"
and sanitize_list_loop :: "idmaps \<Rightarrow> json list \<Rightarrow> json list \<Rightarrow> json \<times> idmaps"
where
  "sanitize_dict st (JDict kvs) = sanitize_dict_loop st kvs []"
| "sanitize_dict st obj = (obj, st)"
| "sanitize_dict_loop st [] result = (JDict result, st)"
| "sanitize_dict_loop st ((key, value) # rest) result =
     (case (case value of
              JDict d \<Rightarrow> sanitize_dict st value
            | JList xs \<Rightarrow> sanitize_list st xs
            | _ \<Rightarrow> sanitize_value st key value) of
        (v, st') \<Rightarrow> sanitize_dict_loop st' rest (AList.update key v result))"
| "sanitize_list st arr = sanitize_list_loop st arr []"
| "sanitize_list_loop st [] result = (JList result, st)"
| "sanitize_list_loop st (item # rest) result =
     (case (case item of
              JDict d \<Rightarrow> sanitize_dict st item
            | JList xs \<Rightarrow> sanitize_list st xs
            | _ \<Rightarrow> (item, st)) of
        (v, st') \<Rightarrow> sanitize_list_loop st' rest (result @ [v]))"

text \<open>
  What the walk writes, as a function of the maps it started from: the value a
  number is replaced by does not depend on when it is registered.
\<close>

definition subst_org :: "idmaps \<Rightarrow> pyint \<Rightarrow> int" where
  "subst_org st n = (case id_get (ORG_ID_MAP st) n of Some s \<Rightarrow> s | None \<Rightarrow> TEST_ORG_ID)"

definition subst_user :: "idmaps \<Rightarrow> pyint \<Rightarrow> int" where
  "subst_user st n = (case id_get (USER_ID_MAP st) n of Some s \<Rightarrow> s | None \<Rightarrow> TEST_USER_ID)"

definition agree :: "idmaps \<Rightarrow> idmaps \<Rightarrow> bool" where
  "agree st st' \<longleftrightarrow> subst_org st' = subst_org st \<and> subst_user st' = subst_user st"

fun rewrite_dict :: "idmaps \<Rightarrow> json \<Rightarrow> json"
and rewrite_list :: "idmaps \<Rightarrow> json list \<Rightarrow> json"
where
  "rewrite_dict st (JDict kvs) =
     JDict (map (\<lambda>(key, value). (key,
              (case value of
                 JDict d \<Rightarrow> rewrite_dict st value
               | JList xs \<Rightarrow> rewrite_list st xs
               | _ \<Rightarrow> fst (sanitize_value st key value)))) kvs)"
| "rewrite_dict st obj = obj"
| "rewrite_list st arr =
     JList (map (\<lambda>item.
              (case item of
                 JDict d \<Rightarrow> rewrite_dict st item
               | JList xs \<Rightarrow> rewrite_list st xs
               | _ \<Rightarrow> item)) arr)"

definition rewrite_field :: "idmaps \<Rightarrow> string \<Rightarrow> json \<Rightarrow> json" where
  "rewrite_field st key value =
     (case value of
        JDict d \<Rightarrow> rewrite_dict st value
      | JList xs \<Rightarrow> rewrite_list st xs
      | _ \<Rightarrow> fst (sanitize_value st key value))"

definition rewrite_item :: "idmaps \<Rightarrow> json \<Rightarrow> json" where
  "rewrite_item st item =
     (case item of
        JDict d \<Rightarrow> rewrite_dict st item
      | JList xs \<Rightarrow> rewrite_list st xs
      | _ \<Rightarrow> item)"

text \<open>The shape of a document: its keys in order and its lengths, leaves erased.\<close>

datatype shape = Leaf | Seq "shape list" | Mapping "(string \<times> shape) list"

fun shape_of :: "json \<Rightarrow> shape" where
  "shape_of (JDict kvs) = Mapping (map (\<lambda>(key, value). (key, shape_of value)) kvs)"
| "shape_of (JList xs) = Seq (map shape_of xs)"
| "shape_of _ = Leaf"

section \<open>Properties\<close>

subsection \<open>The walk computes a state-free rewrite\<close>

lemma rewrite_dict_JDict:
  "rewrite_dict st (JDict kvs) = JDict (map (\<lambda>(key, value). (key, rewrite_field st key value)) kvs)"
  by (simp add: rewrite_field_def)

lemma rewrite_list_eq: "rewrite_list st arr = JList (map (rewrite_item st) arr)"
  by (simp add: rewrite_item_def)

lemma id_get_id_set:
  "id_get (id_set m n v) n' = (if int_of n = int_of n' then Some v else id_get m n')"
  by (induction m) auto

lemma id_get_cong: "int_of x = int_of y \<Longrightarrow> id_get m x = id_get m y"
  by (induction m) auto

lemma agree_refl: "agree st st"
  by (simp add: agree_def)

lemma agree_trans: "agree a b \<Longrightarrow> agree b c \<Longrightarrow> agree a c"
  by (simp add: agree_def)

lemma sanitize_value_fst:
  "fst (sanitize_value st key value) =
     (if value = JNull then value
      else case id_field ORG_ID_FIELDS key value of
        Some n \<Rightarrow> JInt (subst_org st n)
      | None \<Rightarrow>
          (case id_field USER_ID_FIELDS key value of
             Some n \<Rightarrow> JInt (subst_user st n)
           | None \<Rightarrow> sanitize_text key value))"
  by (simp add: sanitize_value_def subst_org_def subst_user_def split: option.splits)

lemma subst_org_register:
  assumes "id_get (ORG_ID_MAP st) n = None"
  shows "subst_org (st\<lparr>ORG_ID_MAP := id_set (ORG_ID_MAP st) n TEST_ORG_ID\<rparr>) = subst_org st"
proof
  fix n'
  show "subst_org (st\<lparr>ORG_ID_MAP := id_set (ORG_ID_MAP st) n TEST_ORG_ID\<rparr>) n' = subst_org st n'"
    using assms id_get_cong[of n n' "ORG_ID_MAP st"]
    by (simp add: subst_org_def id_get_id_set)
qed

lemma subst_user_register:
  assumes "id_get (USER_ID_MAP st) n = None"
  shows "subst_user (st\<lparr>USER_ID_MAP := id_set (USER_ID_MAP st) n TEST_USER_ID\<rparr>) = subst_user st"
proof
  fix n'
  show "subst_user (st\<lparr>USER_ID_MAP := id_set (USER_ID_MAP st) n TEST_USER_ID\<rparr>) n' = subst_user st n'"
    using assms id_get_cong[of n n' "USER_ID_MAP st"]
    by (simp add: subst_user_def id_get_id_set)
qed

lemma sanitize_value_agree: "agree st (snd (sanitize_value st key value))"
  by (simp add: sanitize_value_def agree_def subst_org_register subst_user_register
      subst_org_def[of "st\<lparr>USER_ID_MAP := m\<rparr>" for m] subst_user_def[of "st\<lparr>ORG_ID_MAP := m\<rparr>" for m]
      subst_org_def[of st] subst_user_def[of st] fun_eq_iff
      split: option.splits)

lemma sanitize_value_fst_agree:
  "agree st st' \<Longrightarrow> fst (sanitize_value st' key value) = fst (sanitize_value st key value)"
  by (simp add: sanitize_value_fst agree_def split: option.splits)

lemma update_fresh: "k \<notin> fst ` set al \<Longrightarrow> AList.update k v al = al @ [(k, v)]"
  by (induction al) auto

lemma sanitize_is_rewrite:
  "(\<forall>st0. agree st0 st \<longrightarrow> wf_json obj \<longrightarrow>
      fst (sanitize_dict st obj) = rewrite_dict st0 obj \<and> agree st0 (snd (sanitize_dict st obj)))"
  "(\<forall>st0. agree st0 st \<longrightarrow> distinct (map fst kvs) \<longrightarrow> (\<forall>kv \<in> set kvs. wf_json (snd kv)) \<longrightarrow>
      fst ` set kvs \<inter> fst ` set result = {} \<longrightarrow>
      fst (sanitize_dict_loop st kvs result) =
        JDict (result @ map (\<lambda>(key, value). (key, rewrite_field st0 key value)) kvs) \<and>
      agree st0 (snd (sanitize_dict_loop st kvs result)))"
  "(\<forall>st0. agree st0 st \<longrightarrow> (\<forall>x \<in> set arr. wf_json x) \<longrightarrow>
      fst (sanitize_list st arr) = rewrite_list st0 arr \<and> agree st0 (snd (sanitize_list st arr)))"
  "(\<forall>st0. agree st0 st \<longrightarrow> (\<forall>x \<in> set arr. wf_json x) \<longrightarrow>
      fst (sanitize_list_loop st arr res) = JList (res @ map (rewrite_item st0) arr) \<and>
      agree st0 (snd (sanitize_list_loop st arr res)))"
proof (induction st obj and st kvs result and st arr and st arr res
    rule: sanitize_dict_sanitize_dict_loop_sanitize_list_sanitize_list_loop.induct)
  case (1 st kvs)
  then show ?case by (simp add: rewrite_dict_JDict del: rewrite_dict.simps)
next
  case (4 st key "value" rest result)
  show ?case
  proof (intro allI impI)
    fix st0
    assume ag: "agree st0 st"
      and dist: "distinct (map fst ((key, value) # rest))"
      and wf: "\<forall>kv\<in>set ((key, value) # rest). wf_json (snd kv)"
      and disj: "fst ` set ((key, value) # rest) \<inter> fst ` set result = {}"
    define r where "r = (case value of JList x \<Rightarrow> sanitize_list st x
              | JDict d \<Rightarrow> sanitize_dict st value
              | _ \<Rightarrow> sanitize_value st key value)"
    have r1: "fst r = rewrite_field st0 key value \<and> agree st0 (snd r)"
    proof (cases "value")
      case (JList xs)
      with 4(1)[OF JList] ag wf show ?thesis
        by (simp add: r_def rewrite_field_def del: rewrite_list.simps sanitize_list.simps)
    next
      case (JDict d)
      with 4(2)[OF JDict] ag wf show ?thesis
        by (simp add: r_def rewrite_field_def del: rewrite_dict.simps sanitize_dict.simps)
    qed (use ag in \<open>auto simp: r_def rewrite_field_def sanitize_value_fst_agree
          intro: agree_trans[OF _ sanitize_value_agree]\<close>)
    have fresh: "key \<notin> fst ` set result" using disj by auto
    have disj': "fst ` set rest \<inter> fst ` set (AList.update key (fst r) result) = {}"
      using disj dist by (auto simp: update_fresh[OF fresh])
    have eq: "(fst r, snd r) = (case value of JList x \<Rightarrow> sanitize_list st x
              | JDict d \<Rightarrow> sanitize_dict st value
              | _ \<Rightarrow> sanitize_value st key value)" by (simp add: r_def)
    from 4(3)[OF eq] r1 dist wf disj'
    have "fst (sanitize_dict_loop (snd r) rest (AList.update key (fst r) result)) =
        JDict (AList.update key (fst r) result @
          map (\<lambda>(key, value). (key, rewrite_field st0 key value)) rest) \<and>
      agree st0 (snd (sanitize_dict_loop (snd r) rest (AList.update key (fst r) result)))"
      by simp
    then show "fst (sanitize_dict_loop st ((key, value) # rest) result) =
        JDict (result @ map (\<lambda>(key, value). (key, rewrite_field st0 key value)) ((key, value) # rest)) \<and>
      agree st0 (snd (sanitize_dict_loop st ((key, value) # rest) result))"
      using r1 by (simp add: r_def[symmetric] update_fresh[OF fresh] case_prod_beta)
  qed
next
  case (5 st arr)
  then show ?case by (simp add: rewrite_list_eq del: rewrite_list.simps)
next
  case (7 st item rest res)
  show ?case
  proof (intro allI impI)
    fix st0
    assume ag: "agree st0 st" and wf: "\<forall>x\<in>set (item # rest). wf_json x"
    define r where "r = (case item of JList x \<Rightarrow> sanitize_list st x
              | JDict d \<Rightarrow> sanitize_dict st item | _ \<Rightarrow> (item, st))"
    have r1: "fst r = rewrite_item st0 item \<and> agree st0 (snd r)"
    proof (cases item)
      case (JList xs)
      with 7(1)[OF JList] ag wf show ?thesis
        by (simp add: r_def rewrite_item_def del: rewrite_list.simps sanitize_list.simps)
    next
      case (JDict d)
      with 7(2)[OF JDict] ag wf show ?thesis
        by (simp add: r_def rewrite_item_def del: rewrite_dict.simps sanitize_dict.simps)
    qed (use ag in \<open>auto simp: r_def rewrite_item_def\<close>)
    have eq: "(fst r, snd r) = (case item of JList x \<Rightarrow> sanitize_list st x
              | JDict d \<Rightarrow> sanitize_dict st item | _ \<Rightarrow> (item, st))" by (simp add: r_def)
    from 7(3)[OF eq] r1 wf
    have "fst (sanitize_list_loop (snd r) rest (res @ [fst r])) =
        JList ((res @ [fst r]) @ map (rewrite_item st0) rest) \<and>
      agree st0 (snd (sanitize_list_loop (snd r) rest (res @ [fst r])))"
      by simp
    then show "fst (sanitize_list_loop st (item # rest) res) =
        JList (res @ map (rewrite_item st0) (item # rest)) \<and>
      agree st0 (snd (sanitize_list_loop st (item # rest) res))"
      using r1 by (simp add: r_def[symmetric] case_prod_beta)
  qed
qed (auto simp: agree_def)

lemma sanitize_value_leaf:
  "shape_of value = Leaf \<Longrightarrow> shape_of (fst (sanitize_value st key value)) = Leaf"
  by (cases "value")
     (auto simp: sanitize_value_def sanitize_text_def split: option.splits)

lemma shape_rewrite:
  "shape_of (rewrite_dict st obj) = shape_of obj"
  "shape_of (rewrite_list st arr) = shape_of (JList arr)"
proof (induction st obj and st arr rule: rewrite_dict_rewrite_list.induct)
  case (1 st kvs)
  have "(key, shape_of (case value of JList xs \<Rightarrow> rewrite_list st xs
          | JDict d \<Rightarrow> rewrite_dict st value | _ \<Rightarrow> fst (sanitize_value st key value)))
        = (key, shape_of value)" if "(key, value) \<in> set kvs" for key "value"
  proof (cases "value")
    case (JList xs)
    with 1(1)[OF that refl JList] show ?thesis by simp
  next
    case (JDict d)
    with 1(2)[OF that refl JDict] show ?thesis by simp
  qed (simp_all add: sanitize_value_leaf)
  then show ?case by (auto simp: case_prod_beta)
next
  case (3 st arr)
  have "shape_of (case item of JList xs \<Rightarrow> rewrite_list st xs
          | JDict d \<Rightarrow> rewrite_dict st item | _ \<Rightarrow> item) = shape_of item"
    if "item \<in> set arr" for item
  proof (cases item)
    case (JList xs)
    with 3(1)[OF that JList] show ?thesis by simp
  next
    case (JDict d)
    with 3(2)[OF that JDict] show ?thesis by simp
  qed simp_all
  then show ?case by simp
qed simp_all

subsection \<open>C9: the structural walk preserves the shape of the document\<close>

text \<open>
  C9. \<^verbatim>\<open>sanitize_dict\<close> and \<^verbatim>\<open>sanitize_list\<close> return a document of the same
  shape as their argument: every mapping keeps its keys in their order, every sequence
  its length and order; only scalar leaves can differ, and a leaf stays a leaf.
\<close>

theorem sanitize_preserves_shape:
  "wf_json obj \<Longrightarrow> wf_json (JList arr) \<Longrightarrow>
     shape_of (fst (sanitize_dict st obj)) = shape_of obj \<and>
     shape_of (fst (sanitize_list st arr)) = shape_of (JList arr)"
  using sanitize_is_rewrite(1)[of st obj] sanitize_is_rewrite(3)[of st arr]
    shape_rewrite(1)[of st obj] shape_rewrite(2)[of st arr] agree_refl[of st]
  by (simp del: sanitize_dict.simps sanitize_list.simps rewrite_dict.simps
      rewrite_list.simps shape_of.simps)

theorem sanitize_preserves_shape_witness:
  "wf_json (JDict [(''org_id'', JInt 13888), (''members'', JList [JDict [(''email'', JStr ''a@b.io'')]])]) \<and>
   wf_json (JList [JDict [(''first_name'', JStr ''Ada'')], JInt 7]) \<and>
   shape_of (fst (sanitize_dict \<lparr>ORG_ID_MAP = [], USER_ID_MAP = []\<rparr>
     (JDict [(''org_id'', JInt 13888), (''members'', JList [JDict [(''email'', JStr ''a@b.io'')]])])))
   = Mapping [(''org_id'', Leaf), (''members'', Seq [Mapping [(''email'', Leaf)]])] \<and>
   shape_of (fst (sanitize_list \<lparr>ORG_ID_MAP = [], USER_ID_MAP = []\<rparr>
     [JDict [(''first_name'', JStr ''Ada'')], JInt 7]))
   = Seq [Mapping [(''first_name'', Leaf)], Leaf]"
  using sanitize_preserves_shape[of
      "JDict [(''org_id'', JInt 13888), (''members'', JList [JDict [(''email'', JStr ''a@b.io'')]])]"
      "[JDict [(''first_name'', JStr ''Ada'')], JInt 7]"
      "\<lparr>ORG_ID_MAP = [], USER_ID_MAP = []\<rparr>"]
  by simp

end
